theory Spec2Isabelle
  imports Complex_Main
begin

section \<open>MPAS patches: mesh cells to matplotlib path patches, with a pickle cache\<close>

text \<open>
  A shallow embedding of \<^verbatim>\<open>mpas_patches.py\<close>. Python exceptions are values of
  type \<open>error\<close>; a function that can raise returns \<open>error + 'a\<close>. The file system is a
  map from file names to contents, the text written to standard output by
  \<^verbatim>\<open>update_progress\<close> is the list of its calls.

  Numbers: numpy's floating point arrays are modelled over \<open>real\<close>, so products,
  differences and comparisons are the exact ones (rounding is not modelled). The
  integer arrays \<^verbatim>\<open>verticesOnCell\<close> and \<^verbatim>\<open>nEdgesOnCell\<close> get their element type from
  the mesh file, which the source does not fix; they are modelled over \<open>int\<close>.
\<close>

subsection \<open>Exceptions\<close>

datatype error =
    IndexError
  | ZeroDivisionError
  | AttributeError
  | UnpicklingError
  | SystemExit int

subsection \<open>The mesh\<close>

text \<open>
  What \<^verbatim>\<open>get_mpas_patches\<close> reads of the netCDF dataset (lines 49 to 54): the sizes of the
  dimensions \<^verbatim>\<open>nCells\<close> and \<^verbatim>\<open>maxEdges\<close> and four variables. A two-dimensional array is
  the list of its rows; the size of its second axis, which the source takes from the
  array and not from \<^verbatim>\<open>maxEdges\<close>, is the length of a row.
\<close>

record mesh =
  nCells :: nat
  maxEdges :: nat
  verticesOnCell :: "int list list"
  nEdgesOnCell :: "int list"
  latVertex :: "real list"
  lonVertex :: "real list"

subsection \<open>numpy and Python primitives\<close>

text \<open>
  \<^verbatim>\<open>a[k]\<close> for an integer \<^verbatim>\<open>k\<close>: an index from \<open>- len\<close> up to \<open>-1\<close> counts from the end,
  one outside \<open>- len .. len - 1\<close> raises \<^verbatim>\<open>IndexError\<close>.
\<close>

definition np_item :: "'a list \<Rightarrow> int \<Rightarrow> error + 'a" where
  "np_item a k =
     (if 0 \<le> k \<and> k < int (length a) then Inr (a ! nat k)
      else if k < 0 \<and> - int (length a) \<le> k then Inr (a ! nat (k + int (length a)))
      else Inl IndexError)"

text \<open>Running a raising function over a list: the first exception ends the run.\<close>

primrec mapE :: "('a \<Rightarrow> error + 'b) \<Rightarrow> 'a list \<Rightarrow> error + 'b list" where
  "mapE f [] = Inr []"
| "mapE f (x # xs) =
     (case f x of
        Inl e \<Rightarrow> Inl e
      | Inr y \<Rightarrow> (case mapE f xs of Inl e \<Rightarrow> Inl e | Inr ys \<Rightarrow> Inr (y # ys)))"

text \<open>
  \<^verbatim>\<open>a[idx]\<close> for a two-dimensional integer array \<^verbatim>\<open>idx\<close> (lines 89 and 90): a new array of
  the shape of \<^verbatim>\<open>idx\<close>, every element looked up as above.
\<close>

definition fancy_index :: "'a list \<Rightarrow> int list list \<Rightarrow> error + 'a list list" where
  "fancy_index a idx = mapE (mapE (np_item a)) idx"

text \<open>
  \<^verbatim>\<open>row[0:stop]\<close>: a negative stop counts from the end, and the slice is cut at the ends
  of the row without raising.
\<close>

definition slice_to :: "int \<Rightarrow> 'a list \<Rightarrow> 'a list" where
  "slice_to stop row =
     (if stop < 0 then take (nat (stop + int (length row))) row else take (nat stop) row)"

text \<open>
  \<^verbatim>\<open>row[mask, 0] op= c\<close>: the first column of the rows selected by the boolean mask is
  updated in place, the others are left as they are.
\<close>

definition masked_update :: "bool list \<Rightarrow> (real \<Rightarrow> real) \<Rightarrow> (real \<times> real) list \<Rightarrow> (real \<times> real) list" where
  "masked_update sel f row = map (\<lambda>(b, p). if b then (f (fst p), snd p) else p) (zip sel row)"

text \<open>\<^verbatim>\<open>str(n)\<close> of a non-negative integer: its decimal digits.\<close>

definition digit :: "nat \<Rightarrow> char" where
  "digit d = ''0123456789'' ! d"

fun str :: "nat \<Rightarrow> string" where
  "str n = (if n < 10 then [digit n] else str (n div 10) @ [digit (n mod 10)])"

declare str.simps [simp del]

subsection \<open>matplotlib objects\<close>

text \<open>
  \<^verbatim>\<open>path.Path(vertices, closed=True, readonly=True)\<close> keeps the rows it is given, each a
  (longitude, latitude) pair, and the two flags; what matplotlib makes of the rows (with
  \<^verbatim>\<open>closed=True\<close> it draws the last row as the closing of the polygon, whatever its
  coordinates) is outside the model. \<^verbatim>\<open>patches.PathPatch\<close> wraps a path.
  \<^verbatim>\<open>PatchCollection(patches)\<close> asks every element of the list for its path and its
  transform, which raises \<^verbatim>\<open>AttributeError\<close> on a \<^verbatim>\<open>None\<close> left in the list.
\<close>

record Path =
  vertices :: "(real \<times> real) list"
  closed :: bool
  readonly :: bool

datatype patch = PathPatch (get_path: Path)

type_synonym patch_collection = "patch list"

definition PatchCollection :: "patch option list \<Rightarrow> error + patch_collection" where
  "PatchCollection ps = (if list_all (\<lambda>p. p \<noteq> None) ps then Inr (map the ps) else Inl AttributeError)"

subsection \<open>Progress reports\<close>

text \<open>
  \<^verbatim>\<open>update_progress(job_title, progress)\<close> writes one line to standard output: the title,
  a bar of 40 characters and the percentage, followed by \<^verbatim>\<open>DONE\<close> when
  \<^verbatim>\<open>progress >= 1\<close> (line 35). A call is recorded with its two arguments.
\<close>

record report =
  job_title :: string
  progress :: real

definition shows_done :: "report \<Rightarrow> bool" where
  "shows_done r \<longleftrightarrow> progress r \<ge> 1"

definition update_progress :: "string \<Rightarrow> real \<Rightarrow> report list \<Rightarrow> report list" where
  "update_progress title p out = out @ [\<lparr>job_title = title, progress = p\<rparr>]"

subsection \<open>The patch builder: lines 85 to 122 of \<^verbatim>\<open>get_mpas_patches\<close>\<close>

text \<open>
  The local state of the loop: the array \<^verbatim>\<open>llVertexOnCell\<close> of shape
  (cells, slots, 2), as the list of its rows of (longitude, latitude) pairs, the list
  \<^verbatim>\<open>mesh_patches\<close>, which starts as \<^verbatim>\<open>[None] * nCells\<close>, and what
  \<^verbatim>\<open>update_progress\<close> has written.
\<close>

record build_state =
  llVertexOnCell :: "(real \<times> real) list list"
  mesh_patches :: "patch option list"
  stdout :: "report list"

text \<open>
  Lines 108 to 110 on one row. \<^verbatim>\<open>diff\<close> is a new array, computed before the row is
  written; the two masked updates follow one another. The caller has checked that the
  row has an element 0.
\<close>

definition unwrap_row :: "(real \<times> real) list \<Rightarrow> (real \<times> real) list" where
  "unwrap_row row =
     (let diff = map (\<lambda>p. fst p - fst (row ! 0)) row;
          row1 = masked_update (map (\<lambda>d. d > 180) diff) (\<lambda>x. x - 360) row;
          row2 = masked_update (map (\<lambda>d. d < - 180) diff) (\<lambda>x. x + 360) row1
      in row2)"

text \<open>
  The body of the loop for cell \<open>i\<close> (lines 108 to 117). It raises \<^verbatim>\<open>IndexError\<close> at
  \<^verbatim>\<open>llVertexOnCell[i,0,0]\<close> when the rows are empty, at \<^verbatim>\<open>nEdgesOnCell[i]\<close> and at
  \<^verbatim>\<open>mesh_patches[i] = ...\<close> when \<open>i\<close> is beyond the end, and \<^verbatim>\<open>ZeroDivisionError\<close> at
  \<^verbatim>\<open>i/nCells\<close>; nothing that outlives the call has been written before any of them.
\<close>

definition loop_body :: "string \<Rightarrow> nat \<Rightarrow> int list \<Rightarrow> nat \<Rightarrow> build_state \<Rightarrow> error + build_state" where
  "loop_body pickle_fname nC nE i s =
     (let row = llVertexOnCell s ! i in
      if row = [] then Inl IndexError
      else
        let row' = unwrap_row row;
            ll' = (llVertexOnCell s)[i := row']
        in
        if length nE \<le> i then Inl IndexError
        else
          let cell_patch = \<lparr>vertices = slice_to (nE ! i + 1) row', closed = True, readonly = True\<rparr> in
          if length (mesh_patches s) \<le> i then Inl IndexError
          else
            let s' = s\<lparr>llVertexOnCell := ll',
                      mesh_patches := (mesh_patches s)[i := Some (PathPatch cell_patch)]\<rparr>
            in
            if i mod 250 = 0 then
              (if nC = 0 then Inl ZeroDivisionError
               else Inr (s'\<lparr>stdout := update_progress (''Creating Patch file: '' @ pickle_fname)
                                         (real i / real nC) (stdout s')\<rparr>))
            else Inr s')"

text \<open>\<^verbatim>\<open>for i in range(...)\<close>: the body in turn, until one raises.\<close>

primrec for_loop :: "(nat \<Rightarrow> 's \<Rightarrow> error + 's) \<Rightarrow> nat list \<Rightarrow> 's \<Rightarrow> error option \<times> 's" where
  "for_loop body [] s = (None, s)"
| "for_loop body (i # is) s =
     (case body i s of Inl e \<Rightarrow> (Some e, s) | Inr s' \<Rightarrow> for_loop body is s')"

text \<open>
  Lines 85 to 122: the gather of both vertex arrays at \<^verbatim>\<open>vertices - 1\<close>, the conversion to
  degrees, the array of pairs (\<^verbatim>\<open>np.stack\<close> and the two \<^verbatim>\<open>np.moveaxis\<close>), the loop over
  its first axis, and the collection. The result comes with the progress written.
\<close>

definition build_patches :: "mesh \<Rightarrow> string \<Rightarrow> (error + patch_collection) \<times> report list" where
  "build_patches m pickle_fname =
     (let mesh_patches0 = replicate (nCells m) None;
          vertices = verticesOnCell m;
          idx = map (map (\<lambda>v. v - 1)) vertices
      in
      case fancy_index (latVertex m) idx of
        Inl e \<Rightarrow> (Inl e, [])
      | Inr latV \<Rightarrow>
          (case fancy_index (lonVertex m) idx of
             Inl e \<Rightarrow> (Inl e, [])
           | Inr lonV \<Rightarrow>
               let lonV' = map (map (\<lambda>x. x * (180 / pi))) lonV;
                   latV' = map (map (\<lambda>x. x * (180 / pi))) latV;
                   ll = map (\<lambda>(lons, lats). zip lons lats) (zip lonV' latV')
               in
               (case for_loop (loop_body pickle_fname (nCells m) (nEdgesOnCell m))
                       [0..<length ll]
                       \<lparr>llVertexOnCell = ll, mesh_patches = mesh_patches0, stdout = []\<rparr> of
                  (Some e, s) \<Rightarrow> (Inl e, stdout s)
                | (None, s) \<Rightarrow> (PatchCollection (mesh_patches s), stdout s))))"

subsection \<open>The cache and \<^verbatim>\<open>get_mpas_patches\<close>\<close>

text \<open>
  A file holds either the pickle of a patch collection or bytes on which
  \<^verbatim>\<open>pkle.load\<close> raises. The file system maps the names of the regular files to their
  contents; directories, permissions and failures of \<^verbatim>\<open>open\<close> are not modelled.
\<close>

datatype contents = Pickled patch_collection | Unreadable

type_synonym filesystem = "string \<rightharpoonup> contents"

definition isfile :: "filesystem \<Rightarrow> string \<Rightarrow> bool" where
  "isfile fs name \<longleftrightarrow> fs name \<noteq> None"

definition pkle_load :: "contents \<Rightarrow> error + patch_collection" where
  "pkle_load f = (case f of Pickled pc \<Rightarrow> Inr pc | Unreadable \<Rightarrow> Inl UnpicklingError)"

definition pkle_dump :: "patch_collection \<Rightarrow> string \<Rightarrow> filesystem \<Rightarrow> filesystem" where
  "pkle_dump pc name fs = fs(name \<mapsto> Pickled pc)"

text \<open>Lines 39 to 43.\<close>

definition generate_mesh_patch_fname :: "mesh \<Rightarrow> string" where
  "generate_mesh_patch_fname m = str (nCells m) @ ''.'' @ ''patches''"

text \<open>
  Lines 56 to 59. \<^verbatim>\<open>if pickleFile:\<close> takes \<^verbatim>\<open>None\<close> and the empty string as absent.
\<close>

definition pickle_fname :: "mesh \<Rightarrow> string option \<Rightarrow> string" where
  "pickle_fname m pickleFile =
     (case pickleFile of
        None \<Rightarrow> generate_mesh_patch_fname m
      | Some f \<Rightarrow> if f \<noteq> [] then f else generate_mesh_patch_fname m)"

text \<open>
  \<^verbatim>\<open>get_mpas_patches(mesh, pickle, pickleFile, force=...)\<close> on a file system. It returns
  the collection or the exception that ends it, the file system it leaves, and the
  progress written. The other \<^verbatim>\<open>print\<close> calls are left out.
\<close>

definition get_mpas_patches ::
  "mesh \<Rightarrow> bool \<Rightarrow> string option \<Rightarrow> bool \<Rightarrow> filesystem \<Rightarrow> (error + patch_collection) \<times> filesystem \<times> report list" where
  "get_mpas_patches m pickle pickleFile force fs =
     (let name = pickle_fname m pickleFile in
      if isfile fs name \<and> \<not> force then
        (case pkle_load (the (fs name)) of
           Inr patch_collection \<Rightarrow> (Inr patch_collection, fs, [])
         | Inl e \<Rightarrow> (Inl (SystemExit (- 1)), fs, []))
      else
        (case build_patches m name of
           (Inl e, out) \<Rightarrow> (Inl e, fs, out)
         | (Inr patch_collection, out) \<Rightarrow>
             if pickle then (Inr patch_collection, pkle_dump patch_collection name fs, out)
             else (Inr patch_collection, fs, out)))"

section \<open>Closed forms used in the statements\<close>

text \<open>
  An index is accepted by \<^verbatim>\<open>a[k]\<close> when it lies in \<open>- len .. len - 1\<close>, and is then
  resolved to a position of the array; for a reference \<open>v \<ge> 1\<close> the position of
  \<open>v - 1\<close> is \<open>v - 1\<close> itself.
\<close>

definition in_range :: "nat \<Rightarrow> int \<Rightarrow> bool" where
  "in_range n k \<longleftrightarrow> - int n \<le> k \<and> k < int n"

definition resolve :: "nat \<Rightarrow> int \<Rightarrow> nat" where
  "resolve n k = (if 0 \<le> k then nat k else nat (k + int n))"

text \<open>
  What lines 108 to 110 do to one longitude, given the longitude of the first slot of
  its row: the two updates in the order of the source.
\<close>

definition unwrap :: "real \<Rightarrow> real \<Rightarrow> real" where
  "unwrap ref lon =
     (let d = lon - ref; l1 = (if d > 180 then lon - 360 else lon)
      in if d < - 180 then l1 + 360 else l1)"

text \<open>
  The degrees gathered for a vertex reference \<open>v\<close> of \<^verbatim>\<open>verticesOnCell\<close>, and the
  array \<^verbatim>\<open>llVertexOnCell\<close> as it stands when the loop starts.
\<close>

definition lon_deg :: "mesh \<Rightarrow> int \<Rightarrow> real" where
  "lon_deg m v = lonVertex m ! resolve (length (lonVertex m)) (v - 1) * (180 / pi)"

definition lat_deg :: "mesh \<Rightarrow> int \<Rightarrow> real" where
  "lat_deg m v = latVertex m ! resolve (length (latVertex m)) (v - 1) * (180 / pi)"

definition ll_of :: "mesh \<Rightarrow> (real \<times> real) list list" where
  "ll_of m = map (map (\<lambda>v. (lon_deg m v, lat_deg m v))) (verticesOnCell m)"

text \<open>
  The patch that iteration \<open>i\<close> stores, and the reports written by the first \<open>k\<close>
  iterations.
\<close>

definition path_of :: "int list \<Rightarrow> (real \<times> real) list list \<Rightarrow> nat \<Rightarrow> patch" where
  "path_of nE ll i =
     PathPatch \<lparr>vertices = slice_to (nE ! i + 1) (unwrap_row (ll ! i)), closed = True, readonly = True\<rparr>"

definition cell_patch :: "mesh \<Rightarrow> nat \<Rightarrow> patch" where
  "cell_patch m i = path_of (nEdgesOnCell m) (ll_of m) i"

definition reports_upto :: "string \<Rightarrow> nat \<Rightarrow> nat \<Rightarrow> report list" where
  "reports_upto name nC k =
     map (\<lambda>i. \<lparr>job_title = ''Creating Patch file: '' @ name, progress = real i / real nC\<rparr>)
       (filter (\<lambda>i. i mod 250 = 0) [0..<k])"

text \<open>
  The state after \<open>k\<close> iterations that did not raise, and the condition under which
  none of the first \<open>k\<close> raises.
\<close>

definition after_cells :: "string \<Rightarrow> nat \<Rightarrow> int list \<Rightarrow> build_state \<Rightarrow> nat \<Rightarrow> build_state" where
  "after_cells name nC nE s0 k =
     \<lparr>llVertexOnCell = map unwrap_row (take k (llVertexOnCell s0)) @ drop k (llVertexOnCell s0),
      mesh_patches = map (\<lambda>i. Some (path_of nE (llVertexOnCell s0) i)) [0..<k] @ drop k (mesh_patches s0),
      stdout = stdout s0 @ reports_upto name nC k\<rparr>"

definition loop_pre :: "nat \<Rightarrow> int list \<Rightarrow> build_state \<Rightarrow> nat \<Rightarrow> bool" where
  "loop_pre nC nE s0 k \<longleftrightarrow>
     k \<le> length nE \<and> k \<le> length (mesh_patches s0) \<and>
     list_all (\<lambda>r. r \<noteq> []) (take k (llVertexOnCell s0)) \<and> (0 < k \<longrightarrow> nC \<noteq> 0)"

text \<open>
  The meshes on which lines 85 to 122 return a collection: every reference is accepted
  by both gathers, \<^verbatim>\<open>verticesOnCell\<close> has one non-empty row per cell, and
  \<^verbatim>\<open>nEdgesOnCell\<close> has an entry for every cell.
\<close>

definition refs_resolve :: "mesh \<Rightarrow> bool" where
  "refs_resolve m \<longleftrightarrow>
     list_all (list_all (\<lambda>v. in_range (length (latVertex m)) (v - 1) \<and>
                              in_range (length (lonVertex m)) (v - 1))) (verticesOnCell m)"

definition buildable :: "mesh \<Rightarrow> bool" where
  "buildable m \<longleftrightarrow>
     refs_resolve m \<and>
     length (verticesOnCell m) = nCells m \<and>
     nCells m \<le> length (nEdgesOnCell m) \<and>
     list_all (\<lambda>r. r \<noteq> []) (verticesOnCell m)"

text \<open>
  Reading a decimal numeral back, to state that \<open>str\<close> writes the decimal digits.
\<close>

definition int_of :: "string \<Rightarrow> nat" where
  "int_of s = foldl (\<lambda>a c. 10 * a + length (takeWhile (\<lambda>x. x \<noteq> c) ''0123456789'')) 0 s"

subsection \<open>Example meshes\<close>

text \<open>
  One triangular cell in four slots, the free slot filled with the last vertex
  (\<open>mesh_tri\<close>) or with 0 (\<open>mesh_pad\<close>); the same cell with a reference beyond the
  three vertices (\<open>mesh_bad\<close>); a cell across the antimeridian, with longitudes 179, -179
  and -1 degrees (\<open>mesh_seam\<close>); two cells on four vertices (\<open>mesh_two\<close>); and 10242 cells, the number of the
  docstring of \<^verbatim>\<open>generate_mesh_patch_fname\<close>, all on the one triangle (\<open>mesh_x1\<close>).
\<close>

definition mesh_tri :: mesh where
  "mesh_tri = \<lparr>nCells = 1, maxEdges = 4, verticesOnCell = [[1, 2, 3, 3]], nEdgesOnCell = [3],
     latVertex = [0, 0, pi / 4], lonVertex = [0, pi / 2, 0]\<rparr>"

definition mesh_pad :: mesh where
  "mesh_pad = \<lparr>nCells = 1, maxEdges = 4, verticesOnCell = [[1, 2, 3, 0]], nEdgesOnCell = [3],
     latVertex = [0, 0, pi / 4], lonVertex = [0, pi / 2, 0]\<rparr>"

definition mesh_bad :: mesh where
  "mesh_bad = \<lparr>nCells = 1, maxEdges = 4, verticesOnCell = [[1, 2, 4, 0]], nEdgesOnCell = [3],
     latVertex = [0, 0, pi / 4], lonVertex = [0, pi / 2, 0]\<rparr>"

definition mesh_seam :: mesh where
  "mesh_seam = \<lparr>nCells = 1, maxEdges = 4, verticesOnCell = [[1, 2, 3, 3]], nEdgesOnCell = [3],
     latVertex = [0, pi / 180, - pi / 180],
     lonVertex = [179 * pi / 180, - 179 * pi / 180, - pi / 180]\<rparr>"

definition mesh_two :: mesh where
  "mesh_two = \<lparr>nCells = 2, maxEdges = 4, verticesOnCell = [[1, 2, 3, 0], [2, 4, 3, 0]],
     nEdgesOnCell = [3, 3],
     latVertex = [0, 0, pi / 4, pi / 4], lonVertex = [0, pi / 2, 0, pi / 2]\<rparr>"

definition mesh_x1 :: mesh where
  "mesh_x1 = \<lparr>nCells = 10242, maxEdges = 4, verticesOnCell = replicate 10242 [1, 2, 3, 3],
     nEdgesOnCell = replicate 10242 3,
     latVertex = [0, 0, pi / 4], lonVertex = [0, pi / 2, 0]\<rparr>"

section \<open>The primitives\<close>

lemma np_item_eq:
  "np_item a k = (if in_range (length a) k then Inr (a ! resolve (length a) k) else Inl IndexError)"
  by (auto simp: np_item_def in_range_def resolve_def)

lemma mapE_Inr: "(\<forall>x\<in>set xs. f x = Inr (g x)) \<Longrightarrow> mapE f xs = Inr (map g xs)"
  by (induction xs) auto

lemma mapE_Inr_D: "mapE f xs = Inr ys \<Longrightarrow> \<forall>x\<in>set xs. \<exists>y. f x = Inr y"
  by (induction xs arbitrary: ys) (auto split: sum.splits)

lemma mapE_Inl_D: "mapE f xs = Inl e \<Longrightarrow> \<exists>x\<in>set xs. f x = Inl e"
  by (induction xs) (auto split: sum.splits)

lemma fancy_index_ok:
  assumes "list_all (list_all (in_range (length a))) idx"
  shows "fancy_index a idx = Inr (map (map (\<lambda>k. a ! resolve (length a) k)) idx)"
  unfolding fancy_index_def
  using assms
  by (intro mapE_Inr ballI) (auto simp: list_all_iff np_item_eq)

lemma fancy_index_fail:
  assumes "\<not> list_all (list_all (in_range (length a))) idx"
  shows "fancy_index a idx = Inl IndexError"
proof (cases "fancy_index a idx")
  case (Inl e)
  then obtain r where "r \<in> set idx" "mapE (np_item a) r = Inl e"
    unfolding fancy_index_def by (auto dest: mapE_Inl_D)
  then obtain k where "np_item a k = Inl e" by (auto dest: mapE_Inl_D)
  then have "e = IndexError" by (auto simp: np_item_eq split: if_splits)
  with Inl show ?thesis by simp
next
  case (Inr ys)
  then have "\<forall>r\<in>set idx. \<exists>y. mapE (np_item a) r = Inr y"
    unfolding fancy_index_def by (rule mapE_Inr_D)
  then have "\<forall>r\<in>set idx. \<forall>k\<in>set r. \<exists>y. np_item a k = Inr y"
    by (meson mapE_Inr_D)
  then have "list_all (list_all (in_range (length a))) idx"
    by (auto simp: list_all_iff np_item_eq split: if_splits)
  with assms show ?thesis by simp
qed

lemma for_loop_append:
  "for_loop body (xs @ ys) s =
     (case for_loop body xs s of (None, s') \<Rightarrow> for_loop body ys s' | (Some e, s') \<Rightarrow> (Some e, s'))"
  by (induction xs arbitrary: s) (auto split: sum.splits)

lemma unwrap_row_eq: "unwrap_row row = map (\<lambda>p. (unwrap (fst (row ! 0)) (fst p), snd p)) row"
  unfolding unwrap_row_def masked_update_def Let_def unwrap_def
  by (rule nth_equalityI) (auto)

lemma slice_to_length: "length (slice_to stop row) \<le> length row"
  by (auto simp: slice_to_def)

lemma slice_to_nth: "j < length (slice_to stop row) \<Longrightarrow> slice_to stop row ! j = row ! j"
  by (simp add: slice_to_def split: if_splits)

lemma slice_to_within:
  "0 \<le> stop \<Longrightarrow> nat stop \<le> length row \<Longrightarrow> length (slice_to stop row) = nat stop"
  by (simp add: slice_to_def)

lemma pairs_of_maps:
  "map (\<lambda>(xs, ys). zip xs ys) (zip (map (map f) rows) (map (map g) rows))
     = map (map (\<lambda>x. (f x, g x))) rows"
  by (induction rows) (simp_all add: zip_map_map zip_same_conv_map)

lemma all_in_range_split:
  "list_all (list_all (\<lambda>v. P v \<and> Q v)) rows \<longleftrightarrow>
     list_all (list_all P) rows \<and> list_all (list_all Q) rows"
  by (auto simp: list_all_iff)

lemma list_all_shift:
  "list_all (list_all P) (map (map f) rows) = list_all (list_all (\<lambda>v. P (f v))) rows"
  by (simp add: list_all_iff)

lemma PatchCollection_filled:
  "PatchCollection (map (\<lambda>i. Some (f i)) is @ replicate n None)
     = (if n = 0 then Inr (map f is) else Inl AttributeError)"
  by (cases n) (simp_all add: PatchCollection_def list_all_iff o_def)

text \<open>
  \<open>str\<close> writes the decimal numeral of its argument.
\<close>

lemma int_of_digit:
  assumes "d < 10"
  shows "int_of (s @ [digit d]) = 10 * int_of s + d"
proof -
  from assms
  have "d = 0 \<or> d = 1 \<or> d = 2 \<or> d = 3 \<or> d = 4 \<or> d = 5 \<or> d = 6 \<or> d = 7 \<or> d = 8 \<or> d = 9"
    by arith
  then show ?thesis
    by (elim disjE) (simp_all add: int_of_def digit_def)
qed

lemma int_of_str: "int_of (str n) = n"
proof (induction n rule: str.induct)
  case (1 n)
  show ?case
  proof (cases "n < 10")
    case True
    then show ?thesis
      using int_of_digit [of n "[]"] by (simp add: str.simps [of n] int_of_def)
  next
    case False
    then have "int_of (str n) = 10 * int_of (str (n div 10)) + n mod 10"
      by (simp add: str.simps [of n] int_of_digit)
    with 1 False show ?thesis by simp
  qed
qed

lemma str_10242: "str 10242 = ''10242''"
  by (simp add: str.simps digit_def)

lemma digit_in_table: "d < 10 \<Longrightarrow> digit d \<in> set ''0123456789''"
  unfolding digit_def by (rule nth_mem) simp

lemma str_not_empty: "str n \<noteq> []"
  by (subst str.simps) simp

lemma str_digits: "set (str n) \<subseteq> set ''0123456789''"
proof (induction n rule: str.induct)
  case (1 n)
  show ?case
  proof (cases "n < 10")
    case True
    then show ?thesis
      using digit_in_table [of n] by (subst str.simps) simp
  next
    case False
    have "n mod 10 < 10" by simp
    from digit_in_table [OF this] 1 False show ?thesis
      by (subst str.simps) simp
  qed
qed

lemma digit_zero: "d < 10 \<Longrightarrow> digit d = CHR ''0'' \<Longrightarrow> d = 0"
proof -
  assume "d < 10" and z: "digit d = CHR ''0''"
  then have "d = 0 \<or> d = 1 \<or> d = 2 \<or> d = 3 \<or> d = 4 \<or> d = 5 \<or> d = 6 \<or> d = 7 \<or> d = 8 \<or> d = 9"
    by arith
  then show "d = 0" using z
    by (elim disjE) (simp_all add: digit_def)
qed

lemma str_no_leading_zero: "hd (str n) = CHR ''0'' \<Longrightarrow> n = 0"
proof (induction n rule: str.induct)
  case (1 n)
  show ?case
  proof (cases "n < 10")
    case True
    with "1.prems" show ?thesis
      using digit_zero [of n] by (simp add: str.simps [of n])
  next
    case False
    with "1.prems" have "hd (str (n div 10)) = CHR ''0''"
      by (simp add: str.simps [of n] str_not_empty)
    with 1 False have "n div 10 = 0" by simp
    with False show ?thesis by simp
  qed
qed

section \<open>The loop\<close>

text \<open>
  As long as \<open>loop_pre\<close> holds the loop runs through and leaves \<open>after_cells\<close>;
  at the first cell where it does not hold the body raises.
\<close>

lemma after_cells_0: "after_cells name nC nE s0 0 = s0"
  by (simp add: after_cells_def reports_upto_def)

lemma loop_pre_Suc:
  "k < length (llVertexOnCell s0) \<Longrightarrow>
   loop_pre nC nE s0 (Suc k) \<longleftrightarrow>
     loop_pre nC nE s0 k \<and> k < length nE \<and> k < length (mesh_patches s0) \<and>
     llVertexOnCell s0 ! k \<noteq> [] \<and> nC \<noteq> 0"
  by (auto simp: loop_pre_def take_Suc_conv_app_nth Suc_le_eq)

lemma loop_body_step:
  assumes "k < length (llVertexOnCell s0)" "k < length nE" "k < length (mesh_patches s0)"
    "llVertexOnCell s0 ! k \<noteq> []" "nC \<noteq> 0"
  shows "loop_body name nC nE k (after_cells name nC nE s0 k) = Inr (after_cells name nC nE s0 (Suc k))"
proof -
  let ?ll = "llVertexOnCell s0" and ?mp = "mesh_patches s0"
  have row: "(map unwrap_row (take k ?ll) @ drop k ?ll) ! k = ?ll ! k"
    using assms(1) by (simp add: nth_append)
  have ll': "(map unwrap_row (take k ?ll) @ drop k ?ll)[k := unwrap_row (?ll ! k)]
      = map unwrap_row (take (Suc k) ?ll) @ drop (Suc k) ?ll"
    using assms(1) by (simp add: list_update_append take_Suc_conv_app_nth drop_Suc upd_conv_take_nth_drop drop_tl[symmetric] flip: Cons_nth_drop_Suc)
  have mp': "(map (\<lambda>i. Some (path_of nE ?ll i)) [0..<k] @ drop k ?mp)[k := Some (path_of nE ?ll k)]
      = map (\<lambda>i. Some (path_of nE ?ll i)) [0..<Suc k] @ drop (Suc k) ?mp"
    using assms(3) by (simp add: list_update_append flip: Cons_nth_drop_Suc)
  have rep: "reports_upto name nC (Suc k) =
     (if k mod 250 = 0 then reports_upto name nC k @ [\<lparr>job_title = ''Creating Patch file: '' @ name, progress = real k / real nC\<rparr>]
      else reports_upto name nC k)"
    by (simp add: reports_upto_def)
  show ?thesis
    using assms(2,3,4,5)
    unfolding loop_body_def Let_def
    by (simp add: after_cells_def row ll' mp' [unfolded path_of_def] rep update_progress_def path_of_def del: upt_Suc)
qed

lemma loop_body_fails:
  assumes "k < length (llVertexOnCell s0)"
    "\<not> (k < length nE \<and> k < length (mesh_patches s0) \<and> llVertexOnCell s0 ! k \<noteq> [] \<and> nC \<noteq> 0)"
    "0 < k \<longrightarrow> nC \<noteq> 0"
  shows "\<exists>e. loop_body name nC nE k (after_cells name nC nE s0 k) = Inl e"
proof -
  let ?ll = "llVertexOnCell s0"
  have row: "(map unwrap_row (take k ?ll) @ drop k ?ll) ! k = ?ll ! k"
    using assms(1) by (simp add: nth_append)
  show ?thesis
    using assms(2,3) unfolding loop_body_def Let_def
    by (auto simp: after_cells_def row)
qed

lemma loop_ok:
  "k \<le> length (llVertexOnCell s0) \<Longrightarrow> loop_pre nC nE s0 k \<Longrightarrow>
   for_loop (loop_body name nC nE) [0..<k] s0 = (None, after_cells name nC nE s0 k)"
proof (induction k)
  case 0
  show ?case by (simp add: after_cells_0)
next
  case (Suc k)
  then have k: "k < length (llVertexOnCell s0)" by simp
  from Suc.prems(2) have pre: "loop_pre nC nE s0 k" "k < length nE" "k < length (mesh_patches s0)"
    "llVertexOnCell s0 ! k \<noteq> []" "nC \<noteq> 0"
    using loop_pre_Suc [OF k] by auto
  have "for_loop (loop_body name nC nE) [0..<k] s0 = (None, after_cells name nC nE s0 k)"
    using Suc.IH k pre(1) by simp
  then show ?case
    using loop_body_step [OF k pre(2-5), of name]
    by (simp add: for_loop_append)
qed

lemma loop_fails:
  "k \<le> length (llVertexOnCell s0) \<Longrightarrow> \<not> loop_pre nC nE s0 k \<Longrightarrow>
   \<exists>e s. for_loop (loop_body name nC nE) [0..<k] s0 = (Some e, s)"
proof (induction k)
  case 0
  then show ?case by (simp add: loop_pre_def)
next
  case (Suc k)
  then have k: "k < length (llVertexOnCell s0)" by simp
  show ?case
  proof (cases "loop_pre nC nE s0 k")
    case True
    then have run: "for_loop (loop_body name nC nE) [0..<k] s0 = (None, after_cells name nC nE s0 k)"
      using loop_ok k by simp
    from True have nz: "0 < k \<longrightarrow> nC \<noteq> 0" by (simp add: loop_pre_def)
    from Suc.prems(2) True
    have "\<not> (k < length nE \<and> k < length (mesh_patches s0) \<and> llVertexOnCell s0 ! k \<noteq> [] \<and> nC \<noteq> 0)"
      using loop_pre_Suc [OF k] by auto
    from loop_body_fails [OF k this nz, of name] run show ?thesis
      by (auto simp: for_loop_append)
  next
    case False
    with Suc.IH k obtain e s where "for_loop (loop_body name nC nE) [0..<k] s0 = (Some e, s)"
      by auto
    then show ?thesis by (simp add: for_loop_append)
  qed
qed

section \<open>The builder\<close>

text \<open>
  Lines 85 to 122 return a collection exactly on the buildable meshes, and then the
  collection holds \<open>cell_patch m i\<close> at position \<open>i\<close>.
\<close>

lemma build_gather_fails:
  assumes "\<not> refs_resolve m"
  shows "build_patches m name = (Inl IndexError, [])"
proof (cases "list_all (list_all (\<lambda>v. in_range (length (latVertex m)) (v - 1))) (verticesOnCell m)")
  case False
  then have "fancy_index (latVertex m) (map (map (\<lambda>v. v - 1)) (verticesOnCell m)) = Inl IndexError"
    by (intro fancy_index_fail) (simp add: list_all_shift)
  then show ?thesis by (simp add: build_patches_def)
next
  case True
  then have lat: "fancy_index (latVertex m) (map (map (\<lambda>v. v - 1)) (verticesOnCell m))
      = Inr (map (map (\<lambda>k. latVertex m ! resolve (length (latVertex m)) k)) (map (map (\<lambda>v. v - 1)) (verticesOnCell m)))"
    by (intro fancy_index_ok) (simp add: list_all_shift)
  from True assms
  have "\<not> list_all (list_all (\<lambda>v. in_range (length (lonVertex m)) (v - 1))) (verticesOnCell m)"
    by (simp add: refs_resolve_def all_in_range_split)
  then have "fancy_index (lonVertex m) (map (map (\<lambda>v. v - 1)) (verticesOnCell m)) = Inl IndexError"
    by (intro fancy_index_fail) (simp add: list_all_shift)
  with lat show ?thesis by (simp add: build_patches_def)
qed

lemma build_after_gather:
  assumes "refs_resolve m"
  shows "build_patches m name =
     (case for_loop (loop_body name (nCells m) (nEdgesOnCell m)) [0..<length (verticesOnCell m)]
             \<lparr>llVertexOnCell = ll_of m, mesh_patches = replicate (nCells m) None, stdout = []\<rparr> of
        (Some e, s) \<Rightarrow> (Inl e, stdout s)
      | (None, s) \<Rightarrow> (PatchCollection (mesh_patches s), stdout s))"
proof -
  from assms
  have lat: "fancy_index (latVertex m) (map (map (\<lambda>v. v - 1)) (verticesOnCell m))
      = Inr (map (map (\<lambda>k. latVertex m ! resolve (length (latVertex m)) k)) (map (map (\<lambda>v. v - 1)) (verticesOnCell m)))"
    by (intro fancy_index_ok) (simp add: list_all_shift refs_resolve_def all_in_range_split)
  from assms
  have lon: "fancy_index (lonVertex m) (map (map (\<lambda>v. v - 1)) (verticesOnCell m))
      = Inr (map (map (\<lambda>k. lonVertex m ! resolve (length (lonVertex m)) k)) (map (map (\<lambda>v. v - 1)) (verticesOnCell m)))"
    by (intro fancy_index_ok) (simp add: list_all_shift refs_resolve_def all_in_range_split)
  show ?thesis
    unfolding build_patches_def Let_def lat lon
    by (simp add: o_def pairs_of_maps ll_of_def lon_deg_def lat_deg_def)
qed

lemma build_ok:
  assumes "buildable m"
  shows "build_patches m name =
     (Inr (map (cell_patch m) [0..<nCells m]), reports_upto name (nCells m) (nCells m))"
proof -
  let ?s0 = "\<lparr>llVertexOnCell = ll_of m, mesh_patches = replicate (nCells m) None, stdout = []\<rparr>"
  from assms have n: "length (verticesOnCell m) = nCells m" and refs: "refs_resolve m"
    by (simp_all add: buildable_def)
  have "loop_pre (nCells m) (nEdgesOnCell m) ?s0 (nCells m)"
    using assms by (auto simp: buildable_def loop_pre_def ll_of_def list_all_iff)
  then have "for_loop (loop_body name (nCells m) (nEdgesOnCell m)) [0..<nCells m] ?s0
      = (None, after_cells name (nCells m) (nEdgesOnCell m) ?s0 (nCells m))"
    by (intro loop_ok) (simp_all add: ll_of_def n)
  then show ?thesis
    using PatchCollection_filled [of "path_of (nEdgesOnCell m) (ll_of m)" "[0..<nCells m]" 0]
    by (simp add: build_after_gather [OF refs] n after_cells_def cell_patch_def [abs_def])
qed

lemma build_fails:
  assumes "\<not> buildable m"
  shows "\<exists>e. fst (build_patches m name) = Inl e"
proof (cases "refs_resolve m")
  case False
  then show ?thesis by (simp add: build_gather_fails)
next
  case refs: True
  let ?s0 = "\<lparr>llVertexOnCell = ll_of m, mesh_patches = replicate (nCells m) None, stdout = []\<rparr>"
  let ?k = "length (verticesOnCell m)"
  have len: "?k \<le> length (llVertexOnCell ?s0)" by (simp add: ll_of_def)
  show ?thesis
  proof (cases "loop_pre (nCells m) (nEdgesOnCell m) ?s0 ?k")
    case False
    from loop_fails [OF len False, of name] show ?thesis
      by (auto simp: build_after_gather [OF refs])
  next
    case True
    then have run: "for_loop (loop_body name (nCells m) (nEdgesOnCell m)) [0..<?k] ?s0
        = (None, after_cells name (nCells m) (nEdgesOnCell m) ?s0 ?k)"
      using loop_ok [OF len] by simp
    from True have le: "?k \<le> nCells m" "?k \<le> length (nEdgesOnCell m)"
      and rows: "list_all (\<lambda>r. r \<noteq> []) (verticesOnCell m)"
      by (auto simp: loop_pre_def ll_of_def list_all_iff)
    with assms refs have "nCells m - ?k \<noteq> 0"
      by (auto simp: buildable_def)
    then show ?thesis
      using PatchCollection_filled [of "path_of (nEdgesOnCell m) (ll_of m)" "[0..<?k]" "nCells m - ?k"]
      by (simp add: build_after_gather [OF refs] run after_cells_def)
  qed
qed

lemma build_Inr_iff:
  "fst (build_patches m name) = Inr pc \<longleftrightarrow> buildable m \<and> pc = map (cell_patch m) [0..<nCells m]"
proof (cases "buildable m")
  case True
  then show ?thesis by (auto simp: build_ok)
next
  case False
  from build_fails [OF this, of name] False show ?thesis by auto
qed

lemma built_cell:
  assumes "fst (build_patches m name) = Inr pc" "i < nCells m"
  shows "pc ! i = cell_patch m i"
    and "i < length (verticesOnCell m)" and "verticesOnCell m ! i \<noteq> []"
  using assms by (auto simp: build_Inr_iff buildable_def list_all_length)

lemma cell_patch_vertices:
  assumes "i < length (verticesOnCell m)" "verticesOnCell m ! i \<noteq> []"
  shows "vertices (get_path (cell_patch m i)) =
     slice_to (nEdgesOnCell m ! i + 1)
       (map (\<lambda>v. (unwrap (lon_deg m (verticesOnCell m ! i ! 0)) (lon_deg m v), lat_deg m v))
          (verticesOnCell m ! i))"
  using assms
  by (simp add: cell_patch_def path_of_def ll_of_def unwrap_row_eq o_def)

lemma built_point:
  assumes "fst (build_patches m name) = Inr pc" "i < nCells m"
    "j < length (vertices (get_path (pc ! i)))"
  shows "j < length (verticesOnCell m ! i)"
    and "vertices (get_path (pc ! i)) ! j =
      (unwrap (lon_deg m (verticesOnCell m ! i ! 0)) (lon_deg m (verticesOnCell m ! i ! j)),
       lat_deg m (verticesOnCell m ! i ! j))"
proof -
  note c = built_cell [OF assms(1,2)]
  let ?row = "map (\<lambda>v. (unwrap (lon_deg m (verticesOnCell m ! i ! 0)) (lon_deg m v), lat_deg m v))
          (verticesOnCell m ! i)"
  have v: "vertices (get_path (pc ! i)) = slice_to (nEdgesOnCell m ! i + 1) ?row"
    using c by (simp add: cell_patch_vertices)
  with assms(3) slice_to_length [of "nEdgesOnCell m ! i + 1" ?row]
  show j: "j < length (verticesOnCell m ! i)" by simp
  from assms(3) show "vertices (get_path (pc ! i)) ! j =
      (unwrap (lon_deg m (verticesOnCell m ! i ! 0)) (lon_deg m (verticesOnCell m ! i ! j)),
       lat_deg m (verticesOnCell m ! i ! j))"
    unfolding v using j by (simp add: slice_to_nth)
qed

lemma reports_of_build:
  "fst (build_patches m name) = Inr pc \<Longrightarrow>
   snd (build_patches m name) = reports_upto name (nCells m) (nCells m)"
  by (simp add: build_Inr_iff build_ok)

lemma progress_below_one:
  assumes "fst (build_patches m name) = Inr pc" "r \<in> set (snd (build_patches m name))"
  shows "0 \<le> progress r \<and> progress r < 1 \<and> \<not> shows_done r"
  using assms(2) unfolding reports_of_build [OF assms(1)]
  by (auto simp: reports_upto_def shows_done_def)

subsection \<open>The example meshes, built\<close>

lemmas eval_defs = cell_patch_def path_of_def ll_of_def lon_deg_def lat_deg_def resolve_def
  unwrap_row_eq unwrap_def slice_to_def reports_upto_def

lemma buildable_tri: "buildable mesh_tri"
  by (simp add: buildable_def refs_resolve_def mesh_tri_def in_range_def)

lemma build_tri:
  "build_patches mesh_tri name =
     (Inr [PathPatch \<lparr>vertices = [(0, 0), (90, 0), (0, 45), (0, 45)], closed = True, readonly = True\<rparr>],
      [\<lparr>job_title = ''Creating Patch file: '' @ name, progress = 0\<rparr>])"
  unfolding build_ok [OF buildable_tri]
  by (simp add: mesh_tri_def eval_defs)

lemma buildable_pad: "buildable mesh_pad"
  by (simp add: buildable_def refs_resolve_def mesh_pad_def in_range_def)

lemma build_pad:
  "build_patches mesh_pad name =
     (Inr [PathPatch \<lparr>vertices = [(0, 0), (90, 0), (0, 45), (0, 45)], closed = True, readonly = True\<rparr>],
      [\<lparr>job_title = ''Creating Patch file: '' @ name, progress = 0\<rparr>])"
  unfolding build_ok [OF buildable_pad]
  by (simp add: mesh_pad_def eval_defs)

lemma buildable_seam: "buildable mesh_seam"
  by (simp add: buildable_def refs_resolve_def mesh_seam_def in_range_def)

lemma build_seam:
  "build_patches mesh_seam name =
     (Inr [PathPatch \<lparr>vertices = [(179, 0), (181, 1), (-1, -1), (-1, -1)], closed = True, readonly = True\<rparr>],
      [\<lparr>job_title = ''Creating Patch file: '' @ name, progress = 0\<rparr>])"
  unfolding build_ok [OF buildable_seam]
  by (simp add: mesh_seam_def eval_defs)

lemma buildable_two: "buildable mesh_two"
  by (simp add: buildable_def refs_resolve_def mesh_two_def in_range_def)

lemma upt_2: "[0..<2] = [0, 1]" by (simp add: upt_rec)

lemma build_two:
  "build_patches mesh_two name =
     (Inr [PathPatch \<lparr>vertices = [(0, 0), (90, 0), (0, 45), (90, 45)], closed = True, readonly = True\<rparr>,
           PathPatch \<lparr>vertices = [(90, 0), (90, 45), (0, 45), (90, 45)], closed = True, readonly = True\<rparr>],
      [\<lparr>job_title = ''Creating Patch file: '' @ name, progress = 0\<rparr>])"
  unfolding build_ok [OF buildable_two]
  by (simp add: mesh_two_def eval_defs upt_2)

lemma fname_tri: "generate_mesh_patch_fname mesh_tri = ''1.patches''"
  by (simp add: generate_mesh_patch_fname_def mesh_tri_def str.simps digit_def)

section \<open>The claims\<close>

subsection \<open>C1: the rows of a polygon\<close>

text \<open>
  Claim C1 says that the polygon of cell \<open>i\<close> has \<open>verticesPerCell[i] + 1\<close> points and that
  its first and last points are equal. On \<open>mesh_tri\<close>, whose references all lie in
  \<open>1 .. 3\<close>, the polygon has four points and the last one is the vertex of slot 3, not
  the first point.
\<close>

theorem closing_point_counterexample:
  "fst (build_patches mesh_tri ''1.patches'') =
     Inr [PathPatch \<lparr>vertices = [(0, 0), (90, 0), (0, 45), (0, 45)], closed = True, readonly = True\<rparr>] \<and>
   hd [(0, 0), (90, 0), (0, 45), (0 :: real, 45 :: real)] \<noteq> last [(0, 0), (90, 0), (0, 45), (0, 45)]"
  by (simp add: build_tri)

text \<open>
  Claim C1, amended. In a collection the builder returns, the polygon of a cell \<open>i\<close>
  with \<open>0 \<le> nEdgesOnCell[i]\<close> and \<open>nEdgesOnCell[i]\<close> below the number of slots has exactly
  \<open>nEdgesOnCell[i] + 1\<close> points and is flagged closed; its last point is the vertex that
  slot \<open>nEdgesOnCell[i]\<close> of the cell refers to, in degrees and unwrapped like the others.
\<close>

theorem polygon_rows:
  assumes "fst (build_patches m name) = Inr pc" "i < nCells m"
    "0 \<le> nEdgesOnCell m ! i" "nat (nEdgesOnCell m ! i) < length (verticesOnCell m ! i)"
  shows "length (vertices (get_path (pc ! i))) = nat (nEdgesOnCell m ! i) + 1 \<and>
         closed (get_path (pc ! i)) \<and>
         last (vertices (get_path (pc ! i))) =
           (unwrap (lon_deg m (verticesOnCell m ! i ! 0))
                   (lon_deg m (verticesOnCell m ! i ! nat (nEdgesOnCell m ! i))),
            lat_deg m (verticesOnCell m ! i ! nat (nEdgesOnCell m ! i)))"
proof -
  note c = built_cell [OF assms(1,2)]
  let ?n = "nat (nEdgesOnCell m ! i)"
  let ?row = "map (\<lambda>v. (unwrap (lon_deg m (verticesOnCell m ! i ! 0)) (lon_deg m v), lat_deg m v))
          (verticesOnCell m ! i)"
  have v: "vertices (get_path (pc ! i)) = slice_to (nEdgesOnCell m ! i + 1) ?row"
    using c by (simp add: cell_patch_vertices)
  have len: "length (vertices (get_path (pc ! i))) = ?n + 1"
    unfolding v using assms(3,4) by (subst slice_to_within) (simp_all add: nat_add_distrib)
  then have ne: "vertices (get_path (pc ! i)) \<noteq> []" by auto
  have "last (vertices (get_path (pc ! i))) = vertices (get_path (pc ! i)) ! ?n"
    using len by (simp add: last_conv_nth [OF ne])
  also have "\<dots> = (unwrap (lon_deg m (verticesOnCell m ! i ! 0)) (lon_deg m (verticesOnCell m ! i ! ?n)),
       lat_deg m (verticesOnCell m ! i ! ?n))"
    using len by (intro built_point(2) [OF assms(1,2)]) simp
  finally show ?thesis using len c(1) by (simp add: cell_patch_def path_of_def)
qed

theorem polygon_rows_witness:
  "fst (build_patches mesh_tri ''1.patches'') =
     Inr [PathPatch \<lparr>vertices = [(0, 0), (90, 0), (0, 45), (0, 45)], closed = True, readonly = True\<rparr>] \<and>
   (0 :: nat) < nCells mesh_tri \<and> 0 \<le> nEdgesOnCell mesh_tri ! 0 \<and>
   nat (nEdgesOnCell mesh_tri ! 0) < length (verticesOnCell mesh_tri ! 0) \<and>
   length (vertices (get_path ([PathPatch \<lparr>vertices = [(0, 0), (90, 0), (0, 45), (0, 45)], closed = True, readonly = True\<rparr>] ! 0))) = 4 \<and>
   last [(0, 0), (90, 0), (0, 45), (0 :: real, 45 :: real)] = (0, 45)"
proof -
  have b: "fst (build_patches mesh_tri ''1.patches'') =
     Inr [PathPatch \<lparr>vertices = [(0, 0), (90, 0), (0, 45), (0, 45)], closed = True, readonly = True\<rparr>]"
    by (simp add: build_tri)
  have h: "(0 :: nat) < nCells mesh_tri" "0 \<le> nEdgesOnCell mesh_tri ! 0"
    "nat (nEdgesOnCell mesh_tri ! 0) < length (verticesOnCell mesh_tri ! 0)"
    by (simp_all add: mesh_tri_def)
  from polygon_rows [OF b h] b h show ?thesis by simp
qed

subsection \<open>C2: the longitude unwrap\<close>

text \<open>
  Claim C2. In a collection the builder returns, the longitude of point \<open>j\<close> of cell
  \<open>i\<close> is the longitude in degrees \<open>lon\<^sub>j\<close> of the vertex of slot \<open>j\<close>, less 360 when
  \<open>lon\<^sub>j - lon\<^sub>0 > 180\<close>, plus 360 when \<open>lon\<^sub>j - lon\<^sub>0 < - 180\<close>, and \<open>lon\<^sub>j\<close> itself
  otherwise, which includes a difference of exactly 180 or -180.
\<close>

theorem longitude_unwrap:
  assumes "fst (build_patches m name) = Inr pc" "i < nCells m"
    "j < length (vertices (get_path (pc ! i)))"
  shows "let lon0 = lon_deg m (verticesOnCell m ! i ! 0);
             lonj = lon_deg m (verticesOnCell m ! i ! j);
             out = fst (vertices (get_path (pc ! i)) ! j)
         in (lonj - lon0 > 180 \<longrightarrow> out = lonj - 360) \<and>
            (lonj - lon0 < - 180 \<longrightarrow> out = lonj + 360) \<and>
            (- 180 \<le> lonj - lon0 \<and> lonj - lon0 \<le> 180 \<longrightarrow> out = lonj)"
  using built_point(2) [OF assms] by (simp add: unwrap_def Let_def)

text \<open>
  On \<open>mesh_seam\<close> the reference is 179 degrees: -179 becomes 181, and -1, at a
  difference of exactly -180, stays.
\<close>

theorem longitude_unwrap_witness:
  "fst (build_patches mesh_seam ''1.patches'') =
     Inr [PathPatch \<lparr>vertices = [(179, 0), (181, 1), (-1, -1), (-1, -1)], closed = True, readonly = True\<rparr>] \<and>
   (0 :: nat) < nCells mesh_seam \<and>
   (2 :: nat) < length (vertices (get_path ([PathPatch \<lparr>vertices = [(179, 0), (181, 1), (-1, -1), (-1, -1)], closed = True, readonly = True\<rparr>] ! 0))) \<and>
   lon_deg mesh_seam 1 = 179 \<and> lon_deg mesh_seam 2 = - 179 \<and> lon_deg mesh_seam 3 = - 1 \<and>
   (181 :: real) = - 179 + 360 \<and> (- 1 :: real) - 179 = - 180"
proof -
  let ?pc = "[PathPatch \<lparr>vertices = [(179, 0), (181, 1), (-1, -1), (-1, -1)], closed = True, readonly = True\<rparr>]"
  have b: "fst (build_patches mesh_seam ''1.patches'') = Inr ?pc"
    by (simp add: build_seam)
  have h: "(0 :: nat) < nCells mesh_seam" "(1 :: nat) < length (vertices (get_path (?pc ! 0)))"
    "(2 :: nat) < length (vertices (get_path (?pc ! 0)))"
    by (simp_all add: mesh_seam_def)
  have l: "lon_deg mesh_seam 1 = 179" "lon_deg mesh_seam 2 = - 179" "lon_deg mesh_seam 3 = - 1"
    by (simp_all add: lon_deg_def mesh_seam_def resolve_def)
  from longitude_unwrap [OF b h(1,2)] longitude_unwrap [OF b h(1,3)] b h l show ?thesis
    by simp
qed

subsection \<open>C3: cache hit, or build and persist\<close>

text \<open>
  Claim C3, for \<^verbatim>\<open>pickle=True\<close>. Without \<^verbatim>\<open>force\<close> and with a file at the name that
  unpickles, the call returns the collection of the file, leaves the file system as it
  is and writes no progress. With \<^verbatim>\<open>force\<close>, or with no file at the name, it runs the
  builder; the collection the builder returns is written at the name, over whatever
  was there, and returned, and an exception of the builder leaves the file system as it
  is.
\<close>

theorem get_hit_or_build:
  "(\<not> force \<and> fs (pickle_fname m pickleFile) = Some (Pickled cached) \<longrightarrow>
      get_mpas_patches m True pickleFile force fs = (Inr cached, fs, [])) \<and>
   (force \<or> fs (pickle_fname m pickleFile) = None \<longrightarrow>
      (\<forall>pc out. build_patches m (pickle_fname m pickleFile) = (Inr pc, out) \<longrightarrow>
         get_mpas_patches m True pickleFile force fs =
           (Inr pc, fs(pickle_fname m pickleFile \<mapsto> Pickled pc), out)) \<and>
      (\<forall>e out. build_patches m (pickle_fname m pickleFile) = (Inl e, out) \<longrightarrow>
         get_mpas_patches m True pickleFile force fs = (Inl e, fs, out)))"
  by (auto simp: get_mpas_patches_def isfile_def pkle_load_def pkle_dump_def Let_def)

theorem get_hit_or_build_witness:
  "[''1.patches'' \<mapsto> Pickled []] (pickle_fname mesh_tri None) = Some (Pickled []) \<and>
   get_mpas_patches mesh_tri True None False [''1.patches'' \<mapsto> Pickled []]
     = (Inr [], [''1.patches'' \<mapsto> Pickled []], []) \<and>
   get_mpas_patches mesh_tri True None True [''1.patches'' \<mapsto> Pickled []]
     = (Inr [PathPatch \<lparr>vertices = [(0, 0), (90, 0), (0, 45), (0, 45)], closed = True, readonly = True\<rparr>],
        [''1.patches'' \<mapsto> Pickled [PathPatch \<lparr>vertices = [(0, 0), (90, 0), (0, 45), (0, 45)], closed = True, readonly = True\<rparr>]],
        [\<lparr>job_title = ''Creating Patch file: 1.patches'', progress = 0\<rparr>]) \<and>
   get_mpas_patches mesh_tri True None False Map.empty
     = (Inr [PathPatch \<lparr>vertices = [(0, 0), (90, 0), (0, 45), (0, 45)], closed = True, readonly = True\<rparr>],
        [''1.patches'' \<mapsto> Pickled [PathPatch \<lparr>vertices = [(0, 0), (90, 0), (0, 45), (0, 45)], closed = True, readonly = True\<rparr>]],
        [\<lparr>job_title = ''Creating Patch file: 1.patches'', progress = 0\<rparr>])"
proof -
  have n: "pickle_fname mesh_tri None = ''1.patches''"
    by (simp add: pickle_fname_def fname_tri)
  note b = build_tri [of "''1.patches''"]
  from get_hit_or_build [of False "[''1.patches'' \<mapsto> Pickled []]" mesh_tri None "[]"]
    get_hit_or_build [of True "[''1.patches'' \<mapsto> Pickled []]" mesh_tri None]
    get_hit_or_build [of False Map.empty mesh_tri None]
  show ?thesis by (simp add: n b)
qed

subsection \<open>C4: a file that does not unpickle\<close>

text \<open>
  Claim C4. When the cache is read, that is without \<^verbatim>\<open>force\<close>, and the file at the
  name does not unpickle, the call ends in \<^verbatim>\<open>sys.exit(-1)\<close>: nothing is built, and the
  file system, with the file, stays as it is.
\<close>

theorem corrupt_cache_exits:
  assumes "\<not> force" "fs (pickle_fname m pickleFile) = Some Unreadable"
  shows "get_mpas_patches m pickle pickleFile force fs = (Inl (SystemExit (- 1)), fs, [])"
  using assms by (simp add: get_mpas_patches_def isfile_def pkle_load_def)

theorem corrupt_cache_exits_witness:
  "\<not> False \<and> [''1.patches'' \<mapsto> Unreadable] (pickle_fname mesh_tri None) = Some Unreadable \<and>
   get_mpas_patches mesh_tri True None False [''1.patches'' \<mapsto> Unreadable]
     = (Inl (SystemExit (- 1)), [''1.patches'' \<mapsto> Unreadable], [])"
proof -
  have n: "pickle_fname mesh_tri None = ''1.patches''"
    by (simp add: pickle_fname_def fname_tri)
  from corrupt_cache_exits [of False "[''1.patches'' \<mapsto> Unreadable]" mesh_tri None True]
  show ?thesis by (simp add: n)
qed

subsection \<open>C5: references outside the vertex arrays\<close>

text \<open>
  Claim C5 says that any entry of \<^verbatim>\<open>verticesOnCell\<close> outside \<open>1 .. len(vertexLat)\<close> makes
  the builder fail. \<open>mesh_pad\<close> has the entry 0 and three vertices, and the builder
  returns a collection: the index -1 of the gather is the last vertex.
\<close>

theorem index_zero_builds:
  "verticesOnCell mesh_pad ! 0 ! 3 = 0 \<and> length (latVertex mesh_pad) = 3 \<and>
   fst (build_patches mesh_pad ''1.patches'') =
     Inr [PathPatch \<lparr>vertices = [(0, 0), (90, 0), (0, 45), (0, 45)], closed = True, readonly = True\<rparr>]"
  by (simp add: build_pad) (simp add: mesh_pad_def)

text \<open>
  Claim C5, amended. An entry \<open>v\<close> of \<^verbatim>\<open>verticesOnCell\<close> with \<open>v > len(vertexLat)\<close> or
  \<open>v \<le> - len(vertexLat)\<close> makes the builder raise \<^verbatim>\<open>IndexError\<close> at the gather, before any
  patch or progress; \<^verbatim>\<open>get_mpas_patches\<close>, when it builds, ends in that exception and leaves
  the file system as it is.
\<close>

theorem index_out_of_range_raises:
  assumes "r \<in> set (verticesOnCell m)" "v \<in> set r"
    "int (length (latVertex m)) < v \<or> v \<le> - int (length (latVertex m))"
  shows "build_patches m name = (Inl IndexError, []) \<and>
     (force \<or> fs (pickle_fname m pickleFile) = None \<longrightarrow>
        get_mpas_patches m pickle pickleFile force fs = (Inl IndexError, fs, []))"
proof -
  from assms(3) have "\<not> in_range (length (latVertex m)) (v - 1)"
    by (auto simp: in_range_def)
  with assms(1,2) have "\<not> refs_resolve m"
    unfolding refs_resolve_def list_all_iff by blast
  then have "build_patches m name' = (Inl IndexError, [])" for name'
    by (rule build_gather_fails)
  then show ?thesis
    by (auto simp: get_mpas_patches_def isfile_def Let_def)
qed

theorem index_out_of_range_raises_witness:
  "[1, 2, 4, 0] \<in> set (verticesOnCell mesh_bad) \<and> (4 :: int) \<in> set [1, 2, 4, 0] \<and>
   int (length (latVertex mesh_bad)) < 4 \<and>
   build_patches mesh_bad ''1.patches'' = (Inl IndexError, []) \<and>
   get_mpas_patches mesh_bad True None True Map.empty = (Inl IndexError, Map.empty, [])"
proof -
  have h: "[1, 2, 4, 0] \<in> set (verticesOnCell mesh_bad)" "(4 :: int) \<in> set [1, 2, 4, 0]"
    "int (length (latVertex mesh_bad)) < 4 \<or> 4 \<le> - int (length (latVertex mesh_bad))"
    by (simp_all add: mesh_bad_def)
  from index_out_of_range_raises [OF h, of "''1.patches''" True Map.empty None True] h
  show ?thesis by (simp add: mesh_bad_def)
qed

subsection \<open>C6: progress\<close>

text \<open>
  Claim C6 says that the reported fractions end at exactly 1.0. The builder reports
  \<open>i / nCells\<close> at the cells \<open>i\<close> that are multiples of 250, so every fraction is below 1
  (\<open>progress_below_one\<close>) and the branch of \<^verbatim>\<open>update_progress\<close> that writes \<^verbatim>\<open>DONE\<close> is
  never taken. On the one cell of \<open>mesh_tri\<close> the only report is 0.
\<close>

theorem progress_stops_short:
  "build_patches mesh_tri ''1.patches'' =
     (Inr [PathPatch \<lparr>vertices = [(0, 0), (90, 0), (0, 45), (0, 45)], closed = True, readonly = True\<rparr>],
      [\<lparr>job_title = ''Creating Patch file: 1.patches'', progress = 0\<rparr>]) \<and>
   \<not> shows_done \<lparr>job_title = ''Creating Patch file: 1.patches'', progress = 0\<rparr>"
  by (simp add: build_tri shows_done_def)

subsection \<open>C7: one polygon per cell, in cell order\<close>

text \<open>
  Claim C7. On a buildable mesh the builder returns a collection; and a collection
  the builder returns has \<open>nCells\<close> patches, the one at position \<open>i\<close> made of row \<open>i\<close>
  of the gathered array and of \<open>nEdgesOnCell[i]\<close>.
\<close>

theorem collection_aligned:
  "(buildable m \<longrightarrow> (\<exists>pc. fst (build_patches m name) = Inr pc)) \<and>
   (\<forall>pc. fst (build_patches m name) = Inr pc \<longrightarrow>
      length pc = nCells m \<and>
      (\<forall>i<nCells m. pc ! i =
         PathPatch \<lparr>vertices = slice_to (nEdgesOnCell m ! i + 1) (unwrap_row (ll_of m ! i)),
                    closed = True, readonly = True\<rparr>))"
  by (auto simp: build_Inr_iff cell_patch_def path_of_def)

theorem collection_aligned_witness:
  "buildable mesh_two \<and>
   fst (build_patches mesh_two ''2.patches'') =
     Inr [PathPatch \<lparr>vertices = [(0, 0), (90, 0), (0, 45), (90, 45)], closed = True, readonly = True\<rparr>,
          PathPatch \<lparr>vertices = [(90, 0), (90, 45), (0, 45), (90, 45)], closed = True, readonly = True\<rparr>] \<and>
   length [PathPatch \<lparr>vertices = [(0, 0), (90, 0), (0, 45), (90, 45)], closed = True, readonly = True\<rparr>,
          PathPatch \<lparr>vertices = [(90, 0), (90, 45), (0, 45), (90, 45)], closed = True, readonly = True\<rparr>]
     = nCells mesh_two"
proof -
  have b: "fst (build_patches mesh_two ''2.patches'') =
     Inr [PathPatch \<lparr>vertices = [(0, 0), (90, 0), (0, 45), (90, 45)], closed = True, readonly = True\<rparr>,
          PathPatch \<lparr>vertices = [(90, 0), (90, 45), (0, 45), (90, 45)], closed = True, readonly = True\<rparr>]"
    by (simp add: build_two)
  from collection_aligned [of mesh_two "''2.patches''"] b buildable_two show ?thesis
    by blast
qed

subsection \<open>C8: the name of the cache file\<close>

text \<open>
  Claim C8. Without \<^verbatim>\<open>pickleFile\<close> the name is the decimal numeral of the number of
  cells followed by \<^verbatim>\<open>.patches\<close>: the prefix is a non-empty string of the digits 0 to 9,
  it reads back as the number of cells, and it starts with 0 only for no cells at all.
  A \<^verbatim>\<open>pickleFile\<close> that is given, that is a non-empty string, is the name as it is.
\<close>

theorem cache_key:
  "pickle_fname m None = str (nCells m) @ ''.patches'' \<and>
   int_of (str (nCells m)) = nCells m \<and>
   str (nCells m) \<noteq> [] \<and>
   set (str (nCells m)) \<subseteq> set ''0123456789'' \<and>
   (hd (str (nCells m)) = CHR ''0'' \<longrightarrow> nCells m = 0) \<and>
   (p \<noteq> [] \<longrightarrow> pickle_fname m (Some p) = p)"
  using str_digits [of "nCells m"] str_no_leading_zero [of "nCells m"]
  by (simp add: pickle_fname_def generate_mesh_patch_fname_def int_of_str str_not_empty)

theorem cache_key_witness:
  "pickle_fname mesh_x1 None = ''10242.patches'' \<and>
   nCells mesh_x1 = 10242 \<and> int_of ''10242'' = 10242 \<and>
   hd ''10242'' \<noteq> CHR ''0'' \<and>
   ''out.patches'' \<noteq> [] \<and>
   pickle_fname mesh_x1 (Some ''out.patches'') = ''out.patches''"
proof -
  have n: "nCells mesh_x1 = 10242"
    by (simp add: mesh_x1_def)
  have v: "int_of ''10242'' = 10242"
    by (simp add: int_of_def)
  from cache_key [of mesh_x1 "''out.patches''"] v show ?thesis
    unfolding n str_10242 by simp
qed

subsection \<open>C9: \<^verbatim>\<open>pickle=False\<close> writes nothing\<close>

text \<open>
  Claim C9. With \<^verbatim>\<open>pickle=False\<close> the file system is left as it is in every case, and
  with \<^verbatim>\<open>force\<close> or no file at the name the call returns what the builder returns.
\<close>

theorem no_pickle_no_write:
  "fst (snd (get_mpas_patches m False pickleFile force fs)) = fs \<and>
   (force \<or> fs (pickle_fname m pickleFile) = None \<longrightarrow>
      fst (get_mpas_patches m False pickleFile force fs) = fst (build_patches m (pickle_fname m pickleFile)))"
  by (auto simp: get_mpas_patches_def isfile_def Let_def split: sum.splits prod.splits)

theorem no_pickle_no_write_witness:
  "fst (snd (get_mpas_patches mesh_tri False None True [''1.patches'' \<mapsto> Unreadable]))
     = [''1.patches'' \<mapsto> Unreadable] \<and>
   fst (get_mpas_patches mesh_tri False None True [''1.patches'' \<mapsto> Unreadable])
     = Inr [PathPatch \<lparr>vertices = [(0, 0), (90, 0), (0, 45), (0, 45)], closed = True, readonly = True\<rparr>]"
proof -
  have n: "pickle_fname mesh_tri None = ''1.patches''"
    by (simp add: pickle_fname_def fname_tri)
  from no_pickle_no_write [of mesh_tri None True "[''1.patches'' \<mapsto> Unreadable]"]
  show ?thesis by (simp add: n build_tri)
qed

subsection \<open>C10: latitudes\<close>

text \<open>
  Claim C10. In a collection the builder returns, the latitude of point \<open>j\<close> of cell
  \<open>i\<close> is the entry of \<^verbatim>\<open>latVertex\<close> that slot \<open>j\<close> of the cell refers to, times
  \<open>180 / pi\<close>; the unwrap does not enter.
\<close>

theorem latitude_untouched:
  assumes "fst (build_patches m name) = Inr pc" "i < nCells m"
    "j < length (vertices (get_path (pc ! i)))"
  shows "snd (vertices (get_path (pc ! i)) ! j) =
      latVertex m ! resolve (length (latVertex m)) (verticesOnCell m ! i ! j - 1) * (180 / pi)"
  using built_point(2) [OF assms] by (simp add: lat_deg_def)

theorem latitude_untouched_witness:
  "fst (build_patches mesh_seam ''1.patches'') =
     Inr [PathPatch \<lparr>vertices = [(179, 0), (181, 1), (-1, -1), (-1, -1)], closed = True, readonly = True\<rparr>] \<and>
   (0 :: nat) < nCells mesh_seam \<and>
   (1 :: nat) < length (vertices (get_path ([PathPatch \<lparr>vertices = [(179, 0), (181, 1), (-1, -1), (-1, -1)], closed = True, readonly = True\<rparr>] ! 0))) \<and>
   (1 :: real) = latVertex mesh_seam ! 1 * (180 / pi)"
proof -
  let ?pc = "[PathPatch \<lparr>vertices = [(179, 0), (181, 1), (-1, -1), (-1, -1)], closed = True, readonly = True\<rparr>]"
  have b: "fst (build_patches mesh_seam ''1.patches'') = Inr ?pc"
    by (simp add: build_seam)
  have h: "(0 :: nat) < nCells mesh_seam" "(1 :: nat) < length (vertices (get_path (?pc ! 0)))"
    by (simp_all add: mesh_seam_def)
  from latitude_untouched [OF b h] b h show ?thesis
    by (simp add: mesh_seam_def resolve_def)
qed

end
